theory Spec2Isabelle
  imports Main "HOL-Library.Word"
begin

unbundle bit_operations_syntax

section \<open>The unified2 record decoder\<close>

text \<open>
  A shallow embedding of the Go package \<^verbatim>\<open>unified2\<close> (file \<^verbatim>\<open>unified2.go\<close>): the
  record-type constants, the decoders \<^verbatim>\<open>DecodeEventRecord\<close>, \<^verbatim>\<open>DecodePacketRecord\<close> and
  \<^verbatim>\<open>DecodeExtraDataRecord\<close>, the framer \<^verbatim>\<open>ReadRawRecord\<close> and the dispatcher
  \<^verbatim>\<open>ReadRecord\<close>.

  Go's \<^verbatim>\<open>uint8\<close>, \<^verbatim>\<open>uint16\<close> and \<^verbatim>\<open>uint32\<close> are words of that width, a \<^verbatim>\<open>[]byte\<close> is a
  list of bytes (the nil slice and the empty slice are both \<open>[]\<close>), a pointer result that
  may be nil is an \<open>option\<close>, and an \<^verbatim>\<open>error\<close> result that may be nil is an
  \<open>error option\<close>. Struct fields carry a prefix naming their struct, since several
  structs of the package share field names (\<^verbatim>\<open>SensorId\<close>, \<^verbatim>\<open>Type\<close>, \<^verbatim>\<open>Data\<close>).
\<close>

subsection \<open>Constants and data\<close>

type_synonym byte = "8 word"
type_synonym uint16 = "16 word"
type_synonym uint32 = "32 word"

definition UNIFIED2_PACKET :: uint32 where
  "UNIFIED2_PACKET = 2"

definition UNIFIED2_IDS_EVENT :: uint32 where
  "UNIFIED2_IDS_EVENT = 7"

definition UNIFIED2_IDS_EVENT_IP6 :: uint32 where
  "UNIFIED2_IDS_EVENT_IP6 = 72"

definition UNIFIED2_IDS_EVENT_V2 :: uint32 where
  "UNIFIED2_IDS_EVENT_V2 = 104"

definition UNIFIED2_IDS_EVENT_IP6_V2 :: uint32 where
  "UNIFIED2_IDS_EVENT_IP6_V2 = 105"

definition UNIFIED2_EXTRA_DATA :: uint32 where
  "UNIFIED2_EXTRA_DATA = 110"

record RawHeader =
  hdr_Type :: uint32
  hdr_Len :: uint32

record RawRecord =
  raw_Type :: uint32
  raw_Data :: "byte list"

record EventRecord =
  ev_SensorId :: uint32
  ev_EventId :: uint32
  ev_EventSecond :: uint32
  ev_EventMicrosecond :: uint32
  ev_SignatureId :: uint32
  ev_GeneratorId :: uint32
  ev_SignatureRevision :: uint32
  ev_ClassificationId :: uint32
  ev_Priority :: uint32
  ev_IpSource :: "byte list"
  ev_IpDestination :: "byte list"
  ev_SportItype :: uint16
  ev_DportIcode :: uint16
  ev_Protocol :: byte
  ev_ImpactFlag :: byte
  ev_Impact :: byte
  ev_Blocked :: byte
  ev_MplsLabel :: uint32
  ev_VlanId :: uint16

record PacketRecord =
  pkt_SensorId :: uint32
  pkt_EventId :: uint32
  pkt_EventSecond :: uint32
  pkt_PacketSecond :: uint32
  pkt_PacketMicrosecond :: uint32
  pkt_LinkType :: uint32
  pkt_Length :: uint32
  pkt_Data :: "byte list"

definition PACKET_RECORD_HDR_LEN :: nat where
  "PACKET_RECORD_HDR_LEN = 28"

record ExtraDataRecord =
  xd_EventType :: uint32
  xd_EventLength :: uint32
  xd_SensorId :: uint32
  xd_EventId :: uint32
  xd_EventSecond :: uint32
  xd_Type :: uint32
  xd_DataType :: uint32
  xd_DataLength :: uint32
  xd_Data :: "byte list"

definition EXTRA_DATA_RECORD_HDR_LEN :: nat where
  "EXTRA_DATA_RECORD_HDR_LEN = 32"

text \<open>
  The field \<^verbatim>\<open>Record interface{}\<close> of a \<^verbatim>\<open>RecordContainer\<close> holds nil or a pointer of one
  of three types. An interface value made from a nil pointer is not the nil interface, so
  the pointer inside is an \<open>option\<close> of its own.
\<close>

datatype record_interface =
  NilInterface
  | EventPtr "EventRecord option"
  | PacketPtr "PacketRecord option"
  | ExtraDataPtr "ExtraDataRecord option"

record RecordContainer =
  rc_Type :: uint32
  rc_Record :: record_interface

text \<open>
  The error values the package returns: \<^verbatim>\<open>io.EOF\<close>, \<^verbatim>\<open>io.ErrUnexpectedEOF\<close> and the
  package's own \<^verbatim>\<open>DecodingError\<close>. \<open>NilDereference\<close> stands for the run-time panic of
  a field access through a nil pointer; no function of the package returns it as a value.
\<close>

datatype error = EOF | ErrUnexpectedEOF | DecodingError | NilDereference

subsection \<open>Big-endian reads from a byte buffer\<close>

text \<open>
  \<^verbatim>\<open>binary.BigEndian.Uint16\<close> and \<^verbatim>\<open>Uint32\<close> of \<^verbatim>\<open>encoding/binary\<close>, which index the
  first two or four bytes of their argument. They are only ever applied to a buffer that
  \<^verbatim>\<open>io.ReadFull\<close> has filled.
\<close>

definition Uint16 :: "byte list \<Rightarrow> uint16" where
  "Uint16 b = ucast (b ! 1) OR push_bit 8 (ucast (b ! 0))"

definition Uint32 :: "byte list \<Rightarrow> uint32" where
  "Uint32 b = ucast (b ! 3) OR push_bit 8 (ucast (b ! 2))
     OR push_bit 16 (ucast (b ! 1)) OR push_bit 24 (ucast (b ! 0))"

text \<open>
  A \<^verbatim>\<open>bytes.Buffer\<close> used as a reader is the list of its unread bytes.
  \<^verbatim>\<open>io.ReadFull\<close> on it with a buffer of \<open>n\<close> bytes: nothing to do for \<open>n = 0\<close>;
  \<^verbatim>\<open>io.EOF\<close> when no byte is left; \<^verbatim>\<open>io.ErrUnexpectedEOF\<close> when some but fewer than
  \<open>n\<close> are left; otherwise the next \<open>n\<close> bytes, which are consumed.
\<close>

type_synonym Buffer = "byte list"

definition ReadFull :: "Buffer \<Rightarrow> nat \<Rightarrow> error + (byte list \<times> Buffer)" where
  "ReadFull reader n =
     (if n = 0 then Inr ([], reader)
      else if reader = [] then Inl EOF
      else if length reader < n then Inl ErrUnexpectedEOF
      else Inr (take n reader, drop n reader))"

text \<open>
  The package's helper \<^verbatim>\<open>read(reader, data)\<close> is \<^verbatim>\<open>binary.Read\<close> in big-endian order;
  one function per type of \<^verbatim>\<open>data\<close> the decoders pass: a pointer to a \<^verbatim>\<open>uint32\<close>,
  \<^verbatim>\<open>uint16\<close> or \<^verbatim>\<open>uint8\<close>, and a pointer to a byte slice made with \<open>n\<close> elements. Each
  returns the error of the read, or the value stored through the pointer together with
  the reader after the read.
\<close>

definition read_uint32 :: "Buffer \<Rightarrow> error + (uint32 \<times> Buffer)" where
  "read_uint32 reader =
     (case ReadFull reader 4 of Inl err \<Rightarrow> Inl err | Inr (bs, r) \<Rightarrow> Inr (Uint32 bs, r))"

definition read_uint16 :: "Buffer \<Rightarrow> error + (uint16 \<times> Buffer)" where
  "read_uint16 reader =
     (case ReadFull reader 2 of Inl err \<Rightarrow> Inl err | Inr (bs, r) \<Rightarrow> Inr (Uint16 bs, r))"

definition read_uint8 :: "Buffer \<Rightarrow> error + (byte \<times> Buffer)" where
  "read_uint8 reader =
     (case ReadFull reader 1 of Inl err \<Rightarrow> Inl err | Inr (bs, r) \<Rightarrow> Inr (bs ! 0, r))"

definition read_bytes :: "nat \<Rightarrow> Buffer \<Rightarrow> error + (byte list \<times> Buffer)" where
  "read_bytes n reader = ReadFull reader n"

text \<open>
  The idiom \<^verbatim>\<open>if err = read(reader, &x); err != nil { goto error }\<close>: the rest of the
  function runs with the value read and the reader after the read, or the error is handed
  to the error label.
\<close>

definition read_then ::
  "error + ('a \<times> Buffer) \<Rightarrow> ('a \<Rightarrow> Buffer \<Rightarrow> error + 'b) \<Rightarrow> error + 'b" where
  "read_then res rest = (case res of Inl err \<Rightarrow> Inl err | Inr (v, r) \<Rightarrow> rest v r)"

subsection \<open>The decoders\<close>

definition IsEventType :: "uint32 \<Rightarrow> bool" where
  "IsEventType recordType =
     (if recordType = UNIFIED2_IDS_EVENT \<or> recordType = UNIFIED2_IDS_EVENT_IP6
         \<or> recordType = UNIFIED2_IDS_EVENT_V2 \<or> recordType = UNIFIED2_IDS_EVENT_IP6_V2
      then True else False)"

text \<open>
  \<^verbatim>\<open>DecodeEventRecord\<close> reads field after field from one reader and jumps to its error
  label at the first read that fails. \<open>DecodeEventRecord_fields\<close> is the run of the
  function up to its \<^verbatim>\<open>return event, nil\<close>: \<open>Inl\<close> of the failed read's error where the
  source jumps, otherwise the event as filled in and the reader as left behind. The two
  \<^verbatim>\<open>switch eventType\<close> statements have no default case: for any other tag the first
  leaves both addresses nil, and the second leaves \<^verbatim>\<open>MplsLabel\<close> and \<^verbatim>\<open>VlanId\<close> at
  the zero value of \<^verbatim>\<open>&EventRecord{}\<close>.
\<close>

definition read_addresses ::
  "uint32 \<Rightarrow> Buffer \<Rightarrow> error + ((byte list \<times> byte list) \<times> Buffer)" where
  "read_addresses eventType reader =
     (if eventType = UNIFIED2_IDS_EVENT \<or> eventType = UNIFIED2_IDS_EVENT_V2 then
        read_then (read_bytes 4 reader) (\<lambda>ipSource r.
        read_then (read_bytes 4 r) (\<lambda>ipDestination r.
        Inr ((ipSource, ipDestination), r)))
      else if eventType = UNIFIED2_IDS_EVENT_IP6 \<or> eventType = UNIFIED2_IDS_EVENT_IP6_V2 then
        read_then (read_bytes 16 reader) (\<lambda>ipSource r.
        read_then (read_bytes 16 r) (\<lambda>ipDestination r.
        Inr ((ipSource, ipDestination), r)))
      else Inr (([], []), reader))"

definition read_mpls_vlan ::
  "uint32 \<Rightarrow> Buffer \<Rightarrow> error + ((uint32 \<times> uint16) \<times> Buffer)" where
  "read_mpls_vlan eventType reader =
     (if eventType = UNIFIED2_IDS_EVENT_V2 \<or> eventType = UNIFIED2_IDS_EVENT_IP6_V2 then
        read_then (read_uint32 reader) (\<lambda>mplsLabel r.
        read_then (read_uint16 r) (\<lambda>vlanId r.
        Inr ((mplsLabel, vlanId), r)))
      else Inr ((0, 0), reader))"

definition DecodeEventRecord_fields ::
  "uint32 \<Rightarrow> byte list \<Rightarrow> error + (EventRecord \<times> Buffer)" where
  "DecodeEventRecord_fields eventType data =
     read_then (read_uint32 data) (\<lambda>sensorId r.
     read_then (read_uint32 r) (\<lambda>eventId r.
     read_then (read_uint32 r) (\<lambda>eventSecond r.
     read_then (read_uint32 r) (\<lambda>eventMicrosecond r.
     read_then (read_uint32 r) (\<lambda>signatureId r.
     read_then (read_uint32 r) (\<lambda>generatorId r.
     read_then (read_uint32 r) (\<lambda>signatureRevision r.
     read_then (read_uint32 r) (\<lambda>classificationId r.
     read_then (read_uint32 r) (\<lambda>priority r.
     read_then (read_addresses eventType r) (\<lambda>(ipSource, ipDestination) r.
     read_then (read_uint16 r) (\<lambda>sportItype r.
     read_then (read_uint16 r) (\<lambda>dportIcode r.
     read_then (read_uint8 r) (\<lambda>protocol r.
     read_then (read_uint8 r) (\<lambda>impactFlag r.
     read_then (read_uint8 r) (\<lambda>impact r.
     read_then (read_uint8 r) (\<lambda>blocked r.
     read_then (read_mpls_vlan eventType r) (\<lambda>(mplsLabel, vlanId) r.
     Inr (\<lparr>ev_SensorId = sensorId, ev_EventId = eventId, ev_EventSecond = eventSecond,
           ev_EventMicrosecond = eventMicrosecond, ev_SignatureId = signatureId,
           ev_GeneratorId = generatorId, ev_SignatureRevision = signatureRevision,
           ev_ClassificationId = classificationId, ev_Priority = priority,
           ev_IpSource = ipSource, ev_IpDestination = ipDestination,
           ev_SportItype = sportItype, ev_DportIcode = dportIcode,
           ev_Protocol = protocol, ev_ImpactFlag = impactFlag, ev_Impact = impact,
           ev_Blocked = blocked, ev_MplsLabel = mplsLabel, ev_VlanId = vlanId\<rparr>,
          r))))))))))))))))))"

definition DecodeEventRecord ::
  "uint32 \<Rightarrow> byte list \<Rightarrow> EventRecord option \<times> error option" where
  "DecodeEventRecord eventType data =
     (case DecodeEventRecord_fields eventType data of
        Inl err \<Rightarrow> (None, Some DecodingError)
      | Inr (event, reader) \<Rightarrow> (Some event, None))"

text \<open>
  \<^verbatim>\<open>DecodePacketRecord\<close>: seven reads, then \<^verbatim>\<open>data[PACKET_RECORD_HDR_LEN:]\<close>, a slice
  expression that is in range once the seven reads have succeeded.
\<close>

definition DecodePacketRecord_fields :: "byte list \<Rightarrow> error + (PacketRecord \<times> Buffer)" where
  "DecodePacketRecord_fields data =
     read_then (read_uint32 data) (\<lambda>sensorId r.
     read_then (read_uint32 r) (\<lambda>eventId r.
     read_then (read_uint32 r) (\<lambda>eventSecond r.
     read_then (read_uint32 r) (\<lambda>packetSecond r.
     read_then (read_uint32 r) (\<lambda>packetMicrosecond r.
     read_then (read_uint32 r) (\<lambda>linkType r.
     read_then (read_uint32 r) (\<lambda>len r.
     Inr (\<lparr>pkt_SensorId = sensorId, pkt_EventId = eventId, pkt_EventSecond = eventSecond,
           pkt_PacketSecond = packetSecond, pkt_PacketMicrosecond = packetMicrosecond,
           pkt_LinkType = linkType, pkt_Length = len,
           pkt_Data = drop PACKET_RECORD_HDR_LEN data\<rparr>, r))))))))"

definition DecodePacketRecord :: "byte list \<Rightarrow> PacketRecord option \<times> error option" where
  "DecodePacketRecord data =
     (case DecodePacketRecord_fields data of
        Inl err \<Rightarrow> (None, Some DecodingError)
      | Inr (packet, reader) \<Rightarrow> (Some packet, None))"

text \<open>\<^verbatim>\<open>DecodeExtraDataRecord\<close>: eight reads, then \<^verbatim>\<open>data[EXTRA_DATA_RECORD_HDR_LEN:]\<close>.\<close>

definition DecodeExtraDataRecord_fields ::
  "byte list \<Rightarrow> error + (ExtraDataRecord \<times> Buffer)" where
  "DecodeExtraDataRecord_fields data =
     read_then (read_uint32 data) (\<lambda>eventType r.
     read_then (read_uint32 r) (\<lambda>eventLength r.
     read_then (read_uint32 r) (\<lambda>sensorId r.
     read_then (read_uint32 r) (\<lambda>eventId r.
     read_then (read_uint32 r) (\<lambda>eventSecond r.
     read_then (read_uint32 r) (\<lambda>type r.
     read_then (read_uint32 r) (\<lambda>dataType r.
     read_then (read_uint32 r) (\<lambda>dataLength r.
     Inr (\<lparr>xd_EventType = eventType, xd_EventLength = eventLength, xd_SensorId = sensorId,
           xd_EventId = eventId, xd_EventSecond = eventSecond, xd_Type = type,
           xd_DataType = dataType, xd_DataLength = dataLength,
           xd_Data = drop EXTRA_DATA_RECORD_HDR_LEN data\<rparr>, r)))))))))"

definition DecodeExtraDataRecord ::
  "byte list \<Rightarrow> ExtraDataRecord option \<times> error option" where
  "DecodeExtraDataRecord data =
     (case DecodeExtraDataRecord_fields data of
        Inl err \<Rightarrow> (None, Some DecodingError)
      | Inr (extra, reader) \<Rightarrow> (Some extra, None))"

subsection \<open>The framer and the dispatcher\<close>

text \<open>
  The stream is an \<^verbatim>\<open>io.ReadWriteSeeker\<close>; the package documents it as a file opened with
  \<^verbatim>\<open>os.Open\<close>. A file is its bytes and the offset of the handle.
  \<^item> \<^verbatim>\<open>file.Seek(0, 1)\<close> returns the offset; \<^verbatim>\<open>file.Seek(offset, 0)\<close> sets it.
  \<^item> \<^verbatim>\<open>file.Read(p)\<close> with \<open>n = len(p)\<close>: \<open>(0, nil)\<close> for \<open>n = 0\<close>; \<open>(0, io.EOF)\<close>
    when no byte lies at or after the offset; otherwise it copies the bytes there, up to
    \<open>n\<close> of them and up to \<open>maxRW\<close> of them, advances the offset past them and returns
    their number and nil. \<open>maxRW\<close> is the limit of \<^verbatim>\<open>1 << 30\<close> bytes that the Go runtime
    puts on a single read of a file.
  \<^item> \<^verbatim>\<open>binary.Read(file, binary.BigEndian, &header)\<close> is \<^verbatim>\<open>io.ReadFull\<close> with an
    8-byte buffer, which calls \<^verbatim>\<open>file.Read\<close> until the buffer is full or a call fails,
    drops the error when the buffer is full, and turns \<^verbatim>\<open>io.EOF\<close> after at least one
    byte into \<^verbatim>\<open>io.ErrUnexpectedEOF\<close>; then the two big-endian fields are taken from
    the buffer.

  The file is a regular file read by one reader: a read fails only at the end of the
  file, a read before the end returns all the bytes asked for that are there, up to the
  limit of a single read, offsets are natural numbers, and the buffer of
  \<^verbatim>\<open>header.Len\<close> bytes can always be allocated.
\<close>

record File =
  content :: "byte list"
  offset :: nat

definition unread :: "File \<Rightarrow> byte list" where
  "unread file = drop (offset file) (content file)"

definition Seek_current :: "File \<Rightarrow> nat" where
  "Seek_current file = offset file"

definition Seek_start :: "File \<Rightarrow> nat \<Rightarrow> File" where
  "Seek_start file off = file\<lparr>offset := off\<rparr>"

definition maxRW :: nat where
  "maxRW = 2 ^ 30"

definition File_Read :: "File \<Rightarrow> nat \<Rightarrow> File \<times> byte list \<times> error option" where
  "File_Read file n =
     (if n = 0 then (file, [], None)
      else if unread file = [] then (file, [], Some EOF)
      else (file\<lparr>offset := offset file + min (min n maxRW) (length (unread file))\<rparr>,
            take (min n maxRW) (unread file), None))"

function File_ReadFull_loop ::
  "File \<Rightarrow> nat \<Rightarrow> byte list \<Rightarrow> File \<times> byte list \<times> error option" where
  "File_ReadFull_loop file n buf =
     (if length buf < n then
        (case File_Read file (n - length buf) of
           (file', bs, None) \<Rightarrow> File_ReadFull_loop file' n (buf @ bs)
         | (file', bs, Some err) \<Rightarrow> (file', buf @ bs, Some err))
      else (file, buf, None))"
  by pat_completeness auto
termination
  by (relation "measure (\<lambda>(file, n, buf). n - length buf)")
     (auto simp: File_Read_def maxRW_def min_def neq_Nil_conv split: if_splits)

definition File_ReadFull :: "File \<Rightarrow> nat \<Rightarrow> File \<times> byte list \<times> error option" where
  "File_ReadFull file n =
     (case File_ReadFull_loop file n [] of
        (file', buf, err) \<Rightarrow>
          (file', buf,
           if n \<le> length buf then None
           else if buf \<noteq> [] \<and> err = Some EOF then Some ErrUnexpectedEOF
           else err))"

definition read_header :: "File \<Rightarrow> File \<times> (error + RawHeader)" where
  "read_header file =
     (case File_ReadFull file 8 of
        (file', buf, Some err) \<Rightarrow> (file', Inl err)
      | (file', buf, None) \<Rightarrow>
          (file', Inr \<lparr>hdr_Type = Uint32 (take 4 buf), hdr_Len = Uint32 (take 4 (drop 4 buf))\<rparr>))"

definition ReadRawRecord :: "File \<Rightarrow> File \<times> RawRecord option \<times> error option" where
  "ReadRawRecord file =
     (let off = Seek_current file in
      case read_header file of
        (file1, Inl err) \<Rightarrow> (Seek_start file1 off, None, Some err)
      | (file1, Inr header) \<Rightarrow>
          (case File_Read file1 (unat (hdr_Len header)) of
             (file2, data, Some err) \<Rightarrow> (Seek_start file2 off, None, Some err)
           | (file2, data, None) \<Rightarrow>
               if (word_of_nat (length data) :: uint32) \<noteq> hdr_Len header
               then (Seek_start file2 off, None, Some ErrUnexpectedEOF)
               else (file2, Some \<lparr>raw_Type = hdr_Type header, raw_Data = data\<rparr>, None)))"

text \<open>
  \<^verbatim>\<open>ReadRecord\<close>. \<open>decode_by_type\<close> is its \<^verbatim>\<open>switch record.Type\<close>: the variable
  \<^verbatim>\<open>decoded\<close> starts as the nil interface and is assigned the pointer a decoder returns.
  \<^verbatim>\<open>record.Type\<close> dereferences the pointer that \<^verbatim>\<open>ReadRawRecord\<close> returned with a nil
  error.
\<close>

definition decode_by_type :: "RawRecord \<Rightarrow> record_interface \<times> error option" where
  "decode_by_type record =
     (if raw_Type record = UNIFIED2_IDS_EVENT \<or> raw_Type record = UNIFIED2_IDS_EVENT_IP6
         \<or> raw_Type record = UNIFIED2_IDS_EVENT_V2
         \<or> raw_Type record = UNIFIED2_IDS_EVENT_IP6_V2 then
        (case DecodeEventRecord (raw_Type record) (raw_Data record) of
           (event, err) \<Rightarrow> (EventPtr event, err))
      else if raw_Type record = UNIFIED2_PACKET then
        (case DecodePacketRecord (raw_Data record) of
           (packet, err) \<Rightarrow> (PacketPtr packet, err))
      else if raw_Type record = UNIFIED2_EXTRA_DATA then
        (case DecodeExtraDataRecord (raw_Data record) of
           (extra, err) \<Rightarrow> (ExtraDataPtr extra, err))
      else (NilInterface, None))"

definition ReadRecord :: "File \<Rightarrow> File \<times> RecordContainer option \<times> error option" where
  "ReadRecord file =
     (case ReadRawRecord file of
        (file', _, Some err) \<Rightarrow> (file', None, Some err)
      | (file', None, None) \<Rightarrow> (file', None, Some NilDereference)
      | (file', Some record, None) \<Rightarrow>
          (case decode_by_type record of
             (decoded, Some err) \<Rightarrow> (file', None, Some err)
           | (decoded, None) \<Rightarrow>
               if decoded \<noteq> NilInterface
               then (file', Some \<lparr>rc_Type = raw_Type record, rc_Record = decoded\<rparr>, None)
               else (file', None, None)))"

subsection \<open>Vocabulary of the properties\<close>

text \<open>
  The wire layout of an event body, as a table: the nine 32-bit fields of the preamble,
  two addresses of \<open>a\<close> bytes each from offset 36, the two 16-bit and four 8-bit fields
  after them, and, when \<open>v2\<close> holds, a 32-bit MPLS label and a 16-bit VLAN id after those.
  It is the right-hand side of the lemmas that say what the decoder computes.
\<close>

definition event_layout :: "nat \<Rightarrow> bool \<Rightarrow> byte list \<Rightarrow> EventRecord" where
  "event_layout a v2 data =
     \<lparr>ev_SensorId = Uint32 (take 4 data),
      ev_EventId = Uint32 (take 4 (drop 4 data)),
      ev_EventSecond = Uint32 (take 4 (drop 8 data)),
      ev_EventMicrosecond = Uint32 (take 4 (drop 12 data)),
      ev_SignatureId = Uint32 (take 4 (drop 16 data)),
      ev_GeneratorId = Uint32 (take 4 (drop 20 data)),
      ev_SignatureRevision = Uint32 (take 4 (drop 24 data)),
      ev_ClassificationId = Uint32 (take 4 (drop 28 data)),
      ev_Priority = Uint32 (take 4 (drop 32 data)),
      ev_IpSource = take a (drop 36 data),
      ev_IpDestination = take a (drop (36 + a) data),
      ev_SportItype = Uint16 (take 2 (drop (36 + 2 * a) data)),
      ev_DportIcode = Uint16 (take 2 (drop (38 + 2 * a) data)),
      ev_Protocol = data ! (40 + 2 * a),
      ev_ImpactFlag = data ! (41 + 2 * a),
      ev_Impact = data ! (42 + 2 * a),
      ev_Blocked = data ! (43 + 2 * a),
      ev_MplsLabel = (if v2 then Uint32 (take 4 (drop (44 + 2 * a) data)) else 0),
      ev_VlanId = (if v2 then Uint16 (take 2 (drop (48 + 2 * a) data)) else 0)\<rparr>"

text \<open>
  An offset is a record boundary of a byte sequence when it is 0 or the end of a complete
  record (8-byte header and the body of the length the header declares) that starts at a
  record boundary. \<open>boundary_from bytes p q\<close> walks from \<open>p\<close> over complete records and
  says whether it arrives at \<open>q\<close>.
\<close>

function boundary_from :: "byte list \<Rightarrow> nat \<Rightarrow> nat \<Rightarrow> bool" where
  "boundary_from bytes p q =
     (let end_of_record = p + 8 + unat (Uint32 (take 4 (drop (p + 4) bytes))) in
      if q = p then True
      else if q < end_of_record \<or> length bytes < end_of_record then False
      else boundary_from bytes end_of_record q)"
  by pat_completeness auto
termination
  by (relation "measure (\<lambda>(bytes, p, q). q - p)") auto

definition record_boundary :: "byte list \<Rightarrow> nat \<Rightarrow> bool" where
  "record_boundary bytes q = boundary_from bytes 0 q"

section \<open>Auxiliary lemmas\<close>

declare File_ReadFull_loop.simps [simp del]

declare boundary_from.simps [simp del]

lemmas record_type_defs =
  UNIFIED2_PACKET_def UNIFIED2_IDS_EVENT_def UNIFIED2_IDS_EVENT_IP6_def
  UNIFIED2_IDS_EVENT_V2_def UNIFIED2_IDS_EVENT_IP6_V2_def UNIFIED2_EXTRA_DATA_def

lemma IsEventType_iff:
  "IsEventType t \<longleftrightarrow>
     t = UNIFIED2_IDS_EVENT \<or> t = UNIFIED2_IDS_EVENT_IP6
     \<or> t = UNIFIED2_IDS_EVENT_V2 \<or> t = UNIFIED2_IDS_EVENT_IP6_V2"
  by (auto simp: IsEventType_def)

subsection \<open>Single reads\<close>

text \<open>Each read in two forms: what it returns in every case, and the case of success.\<close>

lemma ReadFull_eq:
  "0 < n \<Longrightarrow> ReadFull r n =
     (if length r < n then Inl (if r = [] then EOF else ErrUnexpectedEOF)
      else Inr (take n r, drop n r))"
  by (auto simp: ReadFull_def)

lemma read_uint32_eq:
  "read_uint32 r =
     (if length r < 4 then Inl (if r = [] then EOF else ErrUnexpectedEOF)
      else Inr (Uint32 (take 4 r), drop 4 r))"
  by (simp add: read_uint32_def ReadFull_eq)

lemma read_uint16_eq:
  "read_uint16 r =
     (if length r < 2 then Inl (if r = [] then EOF else ErrUnexpectedEOF)
      else Inr (Uint16 (take 2 r), drop 2 r))"
  by (simp add: read_uint16_def ReadFull_eq)

lemma read_uint8_eq:
  "read_uint8 r = (if r = [] then Inl EOF else Inr (r ! 0, drop 1 r))"
  by (cases r) (simp_all add: read_uint8_def ReadFull_eq)

lemma read_bytes_eq:
  "0 < n \<Longrightarrow> read_bytes n r =
     (if length r < n then Inl (if r = [] then EOF else ErrUnexpectedEOF)
      else Inr (take n r, drop n r))"
  by (simp add: read_bytes_def ReadFull_eq)

lemma read_uint32_ok:
  "4 \<le> length r \<Longrightarrow> read_uint32 r = Inr (Uint32 (take 4 r), drop 4 r)"
  by (simp add: read_uint32_eq)

lemma read_uint16_ok:
  "2 \<le> length r \<Longrightarrow> read_uint16 r = Inr (Uint16 (take 2 r), drop 2 r)"
  by (simp add: read_uint16_eq)

lemma read_uint8_ok:
  "1 \<le> length r \<Longrightarrow> read_uint8 r = Inr (r ! 0, drop 1 r)"
  by (cases r) (simp_all add: read_uint8_eq)

lemma read_bytes_ok:
  "0 < n \<Longrightarrow> n \<le> length r \<Longrightarrow> read_bytes n r = Inr (take n r, drop n r)"
  by (simp add: read_bytes_eq)

lemmas read_ok = read_uint32_ok read_uint16_ok read_uint8_ok read_bytes_ok

lemmas read_eq = read_uint32_eq read_uint16_eq read_uint8_eq read_bytes_eq

lemma read_then_Inl [simp]: "read_then (Inl e) k = Inl e"
  by (simp add: read_then_def)

lemma read_then_Inr [simp]: "read_then (Inr (v, r)) k = k v r"
  by (simp add: read_then_def)

text \<open>
  The length of what is left after \<open>k\<close> bytes, compared without subtraction, so that the
  conditions of a long run of reads stay linear in the length of the body.
\<close>

lemma diff_less_numeral: "0 < n \<Longrightarrow> (a - k < n) = (a < n + (k::nat))"
  by arith

subsection \<open>The event decoder on each class of tag\<close>

lemma read_addresses_other:
  "\<not> IsEventType eventType \<Longrightarrow> read_addresses eventType r = Inr (([], []), r)"
  by (simp add: read_addresses_def IsEventType_iff)

lemma read_mpls_vlan_other:
  "\<not> IsEventType eventType \<Longrightarrow> read_mpls_vlan eventType r = Inr ((0, 0), r)"
  by (simp add: read_mpls_vlan_def IsEventType_iff)

lemma fields_v4_v1:
  "eventType = UNIFIED2_IDS_EVENT \<Longrightarrow> 52 \<le> length data \<Longrightarrow>
   DecodeEventRecord_fields eventType data = Inr (event_layout 4 False data, drop 52 data)"
  by (simp add: DecodeEventRecord_fields_def read_addresses_def read_mpls_vlan_def
      record_type_defs read_ok event_layout_def)

lemma fields_v4_v2:
  "eventType = UNIFIED2_IDS_EVENT_V2 \<Longrightarrow> 58 \<le> length data \<Longrightarrow>
   DecodeEventRecord_fields eventType data = Inr (event_layout 4 True data, drop 58 data)"
  by (simp add: DecodeEventRecord_fields_def read_addresses_def read_mpls_vlan_def
      record_type_defs read_ok event_layout_def)

lemma fields_v6_v1:
  "eventType = UNIFIED2_IDS_EVENT_IP6 \<Longrightarrow> 76 \<le> length data \<Longrightarrow>
   DecodeEventRecord_fields eventType data = Inr (event_layout 16 False data, drop 76 data)"
  by (simp add: DecodeEventRecord_fields_def read_addresses_def read_mpls_vlan_def
      record_type_defs read_ok event_layout_def)

lemma fields_v6_v2:
  "eventType = UNIFIED2_IDS_EVENT_IP6_V2 \<Longrightarrow> 82 \<le> length data \<Longrightarrow>
   DecodeEventRecord_fields eventType data = Inr (event_layout 16 True data, drop 82 data)"
  by (simp add: DecodeEventRecord_fields_def read_addresses_def read_mpls_vlan_def
      record_type_defs read_ok event_layout_def)

lemma fields_other:
  "\<not> IsEventType eventType \<Longrightarrow> 44 \<le> length data \<Longrightarrow>
   DecodeEventRecord_fields eventType data = Inr (event_layout 0 False data, drop 44 data)"
  by (simp add: DecodeEventRecord_fields_def read_addresses_other read_mpls_vlan_other
      read_ok event_layout_def)

lemma fields_short_v4_v1:
  "eventType = UNIFIED2_IDS_EVENT \<Longrightarrow> length data < 52 \<Longrightarrow>
   \<exists>err. DecodeEventRecord_fields eventType data = Inl err"
  by (simp add: DecodeEventRecord_fields_def read_addresses_def read_mpls_vlan_def
      record_type_defs read_eq diff_less_numeral)

lemma fields_short_v4_v2:
  "eventType = UNIFIED2_IDS_EVENT_V2 \<Longrightarrow> length data < 58 \<Longrightarrow>
   \<exists>err. DecodeEventRecord_fields eventType data = Inl err"
  by (simp add: DecodeEventRecord_fields_def read_addresses_def read_mpls_vlan_def
      record_type_defs read_eq diff_less_numeral)

lemma fields_short_v6_v1:
  "eventType = UNIFIED2_IDS_EVENT_IP6 \<Longrightarrow> length data < 76 \<Longrightarrow>
   \<exists>err. DecodeEventRecord_fields eventType data = Inl err"
  by (simp add: DecodeEventRecord_fields_def read_addresses_def read_mpls_vlan_def
      record_type_defs read_eq diff_less_numeral)

lemma fields_short_v6_v2:
  "eventType = UNIFIED2_IDS_EVENT_IP6_V2 \<Longrightarrow> length data < 82 \<Longrightarrow>
   \<exists>err. DecodeEventRecord_fields eventType data = Inl err"
  by (simp add: DecodeEventRecord_fields_def read_addresses_def read_mpls_vlan_def
      record_type_defs read_eq diff_less_numeral)

subsection \<open>The packet and extra-data decoders\<close>

lemma DecodePacketRecord_fields_ok:
  "28 \<le> length data \<Longrightarrow>
   DecodePacketRecord_fields data =
     Inr (\<lparr>pkt_SensorId = Uint32 (take 4 data), pkt_EventId = Uint32 (take 4 (drop 4 data)),
           pkt_EventSecond = Uint32 (take 4 (drop 8 data)),
           pkt_PacketSecond = Uint32 (take 4 (drop 12 data)),
           pkt_PacketMicrosecond = Uint32 (take 4 (drop 16 data)),
           pkt_LinkType = Uint32 (take 4 (drop 20 data)),
           pkt_Length = Uint32 (take 4 (drop 24 data)),
           pkt_Data = drop 28 data\<rparr>, drop 28 data)"
  by (simp add: DecodePacketRecord_fields_def read_uint32_ok PACKET_RECORD_HDR_LEN_def)

lemma DecodePacketRecord_fields_short:
  "length data < 28 \<Longrightarrow> \<exists>err. DecodePacketRecord_fields data = Inl err"
  by (simp add: DecodePacketRecord_fields_def read_uint32_eq diff_less_numeral)

lemma DecodeExtraDataRecord_fields_ok:
  "32 \<le> length data \<Longrightarrow>
   DecodeExtraDataRecord_fields data =
     Inr (\<lparr>xd_EventType = Uint32 (take 4 data), xd_EventLength = Uint32 (take 4 (drop 4 data)),
           xd_SensorId = Uint32 (take 4 (drop 8 data)),
           xd_EventId = Uint32 (take 4 (drop 12 data)),
           xd_EventSecond = Uint32 (take 4 (drop 16 data)),
           xd_Type = Uint32 (take 4 (drop 20 data)),
           xd_DataType = Uint32 (take 4 (drop 24 data)),
           xd_DataLength = Uint32 (take 4 (drop 28 data)),
           xd_Data = drop 32 data\<rparr>, drop 32 data)"
  by (simp add: DecodeExtraDataRecord_fields_def read_uint32_ok EXTRA_DATA_RECORD_HDR_LEN_def)

lemma DecodeExtraDataRecord_fields_short:
  "length data < 32 \<Longrightarrow> \<exists>err. DecodeExtraDataRecord_fields data = Inl err"
  by (simp add: DecodeExtraDataRecord_fields_def read_uint32_eq diff_less_numeral)

subsection \<open>From the run of a decoder to its result\<close>

lemma DecodeEventRecord_ok:
  "DecodeEventRecord_fields eventType data = Inr (event, r) \<Longrightarrow>
   DecodeEventRecord eventType data = (Some event, None)"
  by (simp add: DecodeEventRecord_def)

lemma DecodeEventRecord_failed:
  "\<exists>err. DecodeEventRecord_fields eventType data = Inl err \<Longrightarrow>
   DecodeEventRecord eventType data = (None, Some DecodingError)"
  by (auto simp: DecodeEventRecord_def)

lemma DecodePacketRecord_failed:
  "\<exists>err. DecodePacketRecord_fields data = Inl err \<Longrightarrow>
   DecodePacketRecord data = (None, Some DecodingError)"
  by (auto simp: DecodePacketRecord_def)

lemma DecodeExtraDataRecord_failed:
  "\<exists>err. DecodeExtraDataRecord_fields data = Inl err \<Longrightarrow>
   DecodeExtraDataRecord data = (None, Some DecodingError)"
  by (auto simp: DecodeExtraDataRecord_def)

subsection \<open>The framer in closed form\<close>

lemma unread_advance:
  "unread (file\<lparr>offset := offset file + k\<rparr>) = drop k (unread file)"
  by (simp add: unread_def add.commute)

lemma File_ReadFull_loop_done:
  "n \<le> length buf \<Longrightarrow> File_ReadFull_loop file n buf = (file, buf, None)"
  by (subst File_ReadFull_loop.simps) simp

lemma File_ReadFull_loop_eof:
  "length buf < n \<Longrightarrow> unread file = [] \<Longrightarrow>
   File_ReadFull_loop file n buf = (file, buf, Some EOF)"
  by (subst File_ReadFull_loop.simps) (simp add: File_Read_def)

lemma File_ReadFull_loop_start:
  "0 < n \<Longrightarrow> n \<le> maxRW \<Longrightarrow> unread file \<noteq> [] \<Longrightarrow>
   File_ReadFull_loop file n [] =
     File_ReadFull_loop (file\<lparr>offset := offset file + min n (length (unread file))\<rparr>) n
       (take n (unread file))"
  by (subst File_ReadFull_loop.simps) (simp add: File_Read_def min_absorb1)

text \<open>
  \<^verbatim>\<open>io.ReadFull\<close> on a file: end of file at once, or one short \<^verbatim>\<open>Read\<close> followed by end
  of file, or one \<^verbatim>\<open>Read\<close> that fills the buffer.
\<close>

lemma File_ReadFull_eq:
  assumes "0 < n" and "n \<le> maxRW"
  shows "File_ReadFull file n =
     (if unread file = [] then (file, [], Some EOF)
      else if length (unread file) < n
      then (file\<lparr>offset := offset file + length (unread file)\<rparr>, unread file,
            Some ErrUnexpectedEOF)
      else (file\<lparr>offset := offset file + n\<rparr>, take n (unread file), None))"
proof (cases "unread file = []")
  case True
  with assms show ?thesis
    by (simp add: File_ReadFull_def File_ReadFull_loop_eof)
next
  case False
  show ?thesis
  proof (cases "length (unread file) < n")
    case True
    with False assms show ?thesis
      by (simp add: File_ReadFull_def File_ReadFull_loop_start File_ReadFull_loop_eof
          unread_advance min_def)
  next
    case enough: False
    with False assms show ?thesis
      by (simp add: File_ReadFull_def File_ReadFull_loop_start File_ReadFull_loop_done
          min_def)
  qed
qed

text \<open>The comparison \<^verbatim>\<open>uint32(n) != header.Len\<close> for a count that is at most the length.\<close>

lemma word_of_nat_eq_iff:
  "n \<le> unat (w :: uint32) \<Longrightarrow> ((word_of_nat n :: uint32) = w) = (n = unat w)"
proof
  assume le: "n \<le> unat w" and eq: "(word_of_nat n :: uint32) = w"
  have "unat w < 2 ^ 32" using unsigned_less [of w] by simp
  with le have "n < 2 ^ LENGTH(32)" by simp
  with eq show "n = unat w" by (simp add: of_nat_inverse)
next
  assume "n = unat w"
  then show "(word_of_nat n :: uint32) = w" by simp
qed

lemma read_header_eq:
  "read_header file =
     (if unread file = [] then (file, Inl EOF)
      else if length (unread file) < 8
      then (file\<lparr>offset := offset file + length (unread file)\<rparr>, Inl ErrUnexpectedEOF)
      else (file\<lparr>offset := offset file + 8\<rparr>,
            Inr \<lparr>hdr_Type = Uint32 (take 4 (unread file)),
                 hdr_Len = Uint32 (take 4 (drop 4 (unread file)))\<rparr>))"
  by (simp add: read_header_def File_ReadFull_eq drop_take maxRW_def)

lemma File_Read_some:
  "0 < n \<Longrightarrow> unread file \<noteq> [] \<Longrightarrow>
   File_Read file n =
     (file\<lparr>offset := offset file + min (min n maxRW) (length (unread file))\<rparr>,
      take (min n maxRW) (unread file), None)"
  by (simp add: File_Read_def)

text \<open>
  \<^verbatim>\<open>ReadRawRecord\<close> by the bytes \<open>u\<close> at and after the offset, with \<open>len\<close> the length
  the header declares: no byte; a part of the header; a header that declares an empty
  body; a header and no byte after it; a header and a part of the body, or a body longer
  than one read returns; a whole record.
\<close>

lemma ReadRawRecord_eq:
  "ReadRawRecord file =
     (let u = unread file; len = unat (Uint32 (take 4 (drop 4 u))) in
      if u = [] then (file, None, Some EOF)
      else if length u < 8 then (file, None, Some ErrUnexpectedEOF)
      else if len = 0
      then (file\<lparr>offset := offset file + 8\<rparr>,
            Some \<lparr>raw_Type = Uint32 (take 4 u), raw_Data = []\<rparr>, None)
      else if length u = 8 then (file, None, Some EOF)
      else if length u < 8 + len \<or> maxRW < len then (file, None, Some ErrUnexpectedEOF)
      else (file\<lparr>offset := offset file + 8 + len\<rparr>,
            Some \<lparr>raw_Type = Uint32 (take 4 u), raw_Data = take len (drop 8 u)\<rparr>, None))"
proof -
  define u where "u = unread file"
  define w where "w = Uint32 (take 4 (drop 4 u))"
  define file1 where "file1 = file\<lparr>offset := offset file + 8\<rparr>"
  have u1: "unread file1 = drop 8 u"
    by (simp add: file1_def u_def unread_advance)
  have restored: "Seek_start file (Seek_current file) = file"
    "Seek_start file1 (Seek_current file) = file"
    "\<And>k. Seek_start (file\<lparr>offset := k\<rparr>) (Seek_current file) = file"
    by (simp_all add: Seek_start_def Seek_current_def file1_def)
  consider (none) "u = []" | (part) "u \<noteq> []" "length u < 8"
    | (empty_body) "8 \<le> length u" "unat w = 0"
    | (no_body) "length u = 8" "unat w \<noteq> 0"
    | (short) "8 < length u" "unat w \<noteq> 0" "length u < 8 + unat w \<or> maxRW < unat w"
    | (whole) "8 < length u" "unat w \<noteq> 0" "8 + unat w \<le> length u" "unat w \<le> maxRW"
    by (cases "u = []"; cases "length u < 8"; cases "unat w = 0"; cases "length u = 8";
        cases "length u < 8 + unat w \<or> maxRW < unat w") auto
  then show ?thesis
  proof cases
    case none
    then show ?thesis
      by (simp add: ReadRawRecord_def read_header_eq Let_def restored flip: u_def)
  next
    case part
    then show ?thesis
      by (simp add: ReadRawRecord_def read_header_eq Let_def restored flip: u_def)
  next
    case empty_body
    then have hdr: "read_header file =
        (file1, Inr \<lparr>hdr_Type = Uint32 (take 4 u), hdr_Len = w\<rparr>)"
      by (auto simp: read_header_eq file1_def w_def simp flip: u_def)
    from empty_body have "w = 0" "u \<noteq> []" by (auto simp: unat_eq_zero)
    with empty_body show ?thesis
      by (simp add: ReadRawRecord_def hdr Let_def File_Read_def file1_def
          flip: u_def w_def)
  next
    case no_body
    then have hdr: "read_header file =
        (file1, Inr \<lparr>hdr_Type = Uint32 (take 4 u), hdr_Len = w\<rparr>)"
      by (auto simp: read_header_eq file1_def w_def simp flip: u_def)
    from no_body have "File_Read file1 (unat w) = (file1, [], Some EOF)" "u \<noteq> []"
        "Uint32 (drop 4 u) = w"
      by (auto simp: File_Read_def u1 w_def)
    with no_body show ?thesis
      by (simp add: ReadRawRecord_def hdr Let_def restored flip: u_def w_def)
  next
    case short
    then have hdr: "read_header file =
        (file1, Inr \<lparr>hdr_Type = Uint32 (take 4 u), hdr_Len = w\<rparr>)"
      by (auto simp: read_header_eq file1_def w_def simp flip: u_def)
    let ?k = "min (min (unat w) maxRW) (length (drop 8 u))"
    from short have rd: "File_Read file1 (unat w) =
        (file1\<lparr>offset := offset file1 + ?k\<rparr>, take (min (unat w) maxRW) (drop 8 u), None)"
      by (simp add: File_Read_some u1)
    have len: "length (take (min (unat w) maxRW) (drop 8 u)) = ?k"
      by simp
    from short have less: "?k < unat w"
      by auto
    then have "(word_of_nat ?k :: uint32) \<noteq> w"
      by (simp add: word_of_nat_eq_iff)
    then have ne:
      "(word_of_nat (length (take (min (unat w) maxRW) (drop 8 u))) :: uint32) \<noteq> w"
      unfolding len .
    have "ReadRawRecord file =
        (Seek_start (file1\<lparr>offset := offset file1 + ?k\<rparr>) (Seek_current file), None,
         Some ErrUnexpectedEOF)"
      using ne by (simp add: ReadRawRecord_def hdr Let_def rd)
    moreover from short have "u \<noteq> []" "\<not> length u < 8" "length u \<noteq> 8"
      by auto
    ultimately show ?thesis
      using short
      by (simp add: file1_def Seek_start_def Seek_current_def Let_def flip: u_def w_def)
  next
    case whole
    then have hdr: "read_header file =
        (file1, Inr \<lparr>hdr_Type = Uint32 (take 4 u), hdr_Len = w\<rparr>)"
      by (auto simp: read_header_eq file1_def w_def simp flip: u_def)
    from whole have k: "min (min (unat w) maxRW) (length (drop 8 u)) = unat w"
      "min (unat w) maxRW = unat w"
      by auto
    from whole have rd: "File_Read file1 (unat w) =
        (file1\<lparr>offset := offset file1 + unat w\<rparr>, take (unat w) (drop 8 u), None)"
      by (simp add: File_Read_some u1 k)
    from whole have "length (take (unat w) (drop 8 u)) = unat w"
      by simp
    then have len: "(word_of_nat (length (take (unat w) (drop 8 u))) :: uint32) = w"
      by simp
    have "ReadRawRecord file =
        (file1\<lparr>offset := offset file1 + unat w\<rparr>,
         Some \<lparr>raw_Type = Uint32 (take 4 u), raw_Data = take (unat w) (drop 8 u)\<rparr>, None)"
      using len by (simp add: ReadRawRecord_def hdr Let_def rd)
    moreover from whole have "u \<noteq> []" "\<not> length u < 8" "length u \<noteq> 8"
        "\<not> (length u < 8 + unat w \<or> maxRW < unat w)"
      by auto
    ultimately show ?thesis
      using whole
      by (simp add: file1_def Let_def flip: u_def w_def)
  qed
qed

text \<open>
  A stream that holds a whole header and fewer body bytes than the header declares: the
  offset is put back in every case; the error is \<^verbatim>\<open>io.ErrUnexpectedEOF\<close> when at least
  one byte of the body is there, and the \<^verbatim>\<open>io.EOF\<close> that \<^verbatim>\<open>file.Read\<close> returns when
  none is.
\<close>

lemma ReadRawRecord_incomplete_body:
  assumes "8 \<le> length (unread file)"
    and "length (unread file) < 8 + unat (Uint32 (take 4 (drop 4 (unread file))))"
  shows "ReadRawRecord file =
     (file, None, Some (if length (unread file) = 8 then EOF else ErrUnexpectedEOF))"
  using assms by (auto simp: ReadRawRecord_eq Let_def)

text \<open>
  What a call of \<^verbatim>\<open>ReadRawRecord\<close> can return, and that a whole record read from a
  record boundary ends at a record boundary.
\<close>

lemma ReadRawRecord_outcome:
  assumes "ReadRawRecord file = (file', result, err)"
  shows "content file' = content file \<and>
    (if err = None
     then 8 + unat (Uint32 (take 4 (drop 4 (unread file)))) \<le> length (unread file) \<and>
          result = Some \<lparr>raw_Type = Uint32 (take 4 (unread file)),
                          raw_Data = take (unat (Uint32 (take 4 (drop 4 (unread file)))))
                                       (drop 8 (unread file))\<rparr> \<and>
          offset file' = offset file + 8 + unat (Uint32 (take 4 (drop 4 (unread file))))
     else result = None \<and> file' = file \<and> (err = Some EOF \<or> err = Some ErrUnexpectedEOF))"
  using assms by (auto simp: ReadRawRecord_eq Let_def split: if_splits)

lemma boundary_from_refl: "boundary_from bytes p p"
  by (subst boundary_from.simps) (simp add: Let_def)

lemma boundary_from_next:
  assumes "boundary_from bytes a p"
    and "p + 8 + unat (Uint32 (take 4 (drop (p + 4) bytes))) \<le> length bytes"
  shows "boundary_from bytes a (p + 8 + unat (Uint32 (take 4 (drop (p + 4) bytes))))"
  using assms
proof (induction bytes a p rule: boundary_from.induct)
  case (1 bytes a p)
  let ?next = "\<lambda>x. x + 8 + unat (Uint32 (take 4 (drop (x + 4) bytes)))"
  show ?case
  proof (cases "p = a")
    case True
    with "1.prems"(2) boundary_from_refl [of bytes "?next a"] show ?thesis
      by (subst boundary_from.simps) (simp add: Let_def)
  next
    case False
    with "1.prems"(1) have step: "?next a \<le> p" "?next a \<le> length bytes"
      "boundary_from bytes (?next a) p"
      by (subst (asm) boundary_from.simps, simp add: Let_def split: if_splits)+
    from False step "1.prems"(2) have "boundary_from bytes (?next a) (?next p)"
      by (intro "1.IH") simp_all
    with step show ?thesis
      by (subst boundary_from.simps) (simp add: Let_def)
  qed
qed

lemma record_boundary_start: "record_boundary bytes 0"
  by (simp add: record_boundary_def boundary_from_refl)

lemma record_boundary_advance:
  assumes "record_boundary (content file) (offset file)"
    and "8 + unat (Uint32 (take 4 (drop 4 (unread file)))) \<le> length (unread file)"
  shows "record_boundary (content file)
           (offset file + 8 + unat (Uint32 (take 4 (drop 4 (unread file)))))"
proof -
  have len: "Uint32 (take 4 (drop 4 (unread file)))
               = Uint32 (take 4 (drop (offset file + 4) (content file)))"
    by (simp add: unread_def add.commute)
  from assms(2) have "offset file + 8 + unat (Uint32 (take 4 (drop 4 (unread file))))
                        \<le> length (content file)"
    by (simp add: unread_def)
  with assms(1) show ?thesis
    unfolding len record_boundary_def by (rule boundary_from_next)
qed

text \<open>The only error the dispatcher adds to those of the framer.\<close>

lemma decode_by_type_error:
  "decode_by_type record = (decoded, Some err) \<Longrightarrow> err = DecodingError"
  by (auto simp: decode_by_type_def DecodeEventRecord_def DecodePacketRecord_def
      DecodeExtraDataRecord_def split: if_splits sum.splits prod.splits)

text \<open>
  A whole record with a tag that no case of the dispatcher names, and a body that one read
  returns: the unknown outcome, a nil container with a nil error, and the offset past the
  record.
\<close>

lemma ReadRecord_unknown_type_within_read_limit:
  assumes "8 + unat (Uint32 (take 4 (drop 4 (unread file)))) \<le> length (unread file)"
    and "unat (Uint32 (take 4 (drop 4 (unread file)))) \<le> maxRW"
    and "Uint32 (take 4 (unread file)) \<notin>
           {UNIFIED2_PACKET, UNIFIED2_IDS_EVENT, UNIFIED2_IDS_EVENT_IP6,
            UNIFIED2_IDS_EVENT_V2, UNIFIED2_IDS_EVENT_IP6_V2, UNIFIED2_EXTRA_DATA}"
  shows "ReadRecord file =
     (file\<lparr>offset := offset file + 8 + unat (Uint32 (take 4 (drop 4 (unread file))))\<rparr>,
      None, None)"
  using assms
  by (auto simp: ReadRecord_def ReadRawRecord_eq Let_def decode_by_type_def)

subsection \<open>Evaluation on byte literals\<close>

lemma Uint32_bytes:
  "Uint32 [b0, b1, b2, b3] =
     ucast b3 OR push_bit 8 (ucast b2) OR push_bit 16 (ucast b1) OR push_bit 24 (ucast b0)"
  by (simp add: Uint32_def)

lemma Uint16_bytes: "Uint16 [b0, b1] = ucast b1 OR push_bit 8 (ucast b0)"
  by (simp add: Uint16_def)

section \<open>The framer\<close>

text \<open>
  Claim C1. For every stream in which a complete 8-byte header is available but fewer
  than the declared number of body bytes follow, \<^verbatim>\<open>ReadRawRecord\<close> returns the incomplete
  outcome (\<^verbatim>\<open>io.ErrUnexpectedEOF\<close>) and the offset after the call is the offset before
  it. The function's own comment promises \<^verbatim>\<open>io.ErrUnexpectedEOF\<close> whenever a complete
  record could not be read. On a stream that ends right after a header declaring five
  body bytes, the offset is put back, but the error returned is \<^verbatim>\<open>io.EOF\<close>, the value
  for a clean end of the stream: the error of \<^verbatim>\<open>file.Read\<close> is passed on as it is.
\<close>

theorem ReadRawRecord_header_without_body:
  "ReadRawRecord \<lparr>content = [0, 0, 0, 2, 0, 0, 0, 5], offset = 0\<rparr> =
     (\<lparr>content = [0, 0, 0, 2, 0, 0, 0, 5], offset = 0\<rparr>, None, Some EOF)"
  by (simp add: ReadRawRecord_eq unread_def Uint32_bytes)

text \<open>
  Claim C2. For every stream with no byte available at the current offset,
  \<^verbatim>\<open>ReadRawRecord\<close> returns \<^verbatim>\<open>io.EOF\<close> with no record and leaves the stream, and so
  its offset, as it was.
\<close>

theorem ReadRawRecord_clean_end_of_stream:
  "unread file = [] \<Longrightarrow> ReadRawRecord file = (file, None, Some EOF)"
  by (simp add: ReadRawRecord_eq)

theorem ReadRawRecord_clean_end_of_stream_witness:
  "unread \<lparr>content = [0, 0, 0, 2, 0, 0, 0, 0], offset = 8\<rparr> = [] \<and>
   ReadRawRecord \<lparr>content = [0, 0, 0, 2, 0, 0, 0, 0], offset = 8\<rparr> =
     (\<lparr>content = [0, 0, 0, 2, 0, 0, 0, 0], offset = 8\<rparr>, None, Some EOF)"
proof -
  have empty: "unread \<lparr>content = [0, 0, 0, 2, 0, 0, 0, 0], offset = 8\<rparr> = []"
    by (simp add: unread_def)
  from empty ReadRawRecord_clean_end_of_stream [OF empty] show ?thesis
    by simp
qed

text \<open>
  Claim C9. When \<^verbatim>\<open>ReadRawRecord\<close> succeeds, the data of the record it returns has
  exactly as many bytes as the header just read declares, they are the bytes that follow
  the header, and the offset has advanced by exactly 8 plus that length; a call that fails
  returns no record and leaves the offset where it was. So every call that starts at a
  record boundary of the stream ends at a record boundary, and no call changes the bytes
  of the stream.
\<close>

theorem ReadRawRecord_record_boundary:
  assumes "ReadRawRecord file = (file', result, err)"
  shows "content file' = content file \<and>
    (if err = None
     then \<exists>record. result = Some record \<and>
            raw_Type record = Uint32 (take 4 (unread file)) \<and>
            length (raw_Data record) = unat (Uint32 (take 4 (drop 4 (unread file)))) \<and>
            raw_Data record = take (length (raw_Data record)) (drop 8 (unread file)) \<and>
            offset file' = offset file + 8 + length (raw_Data record)
     else result = None \<and> offset file' = offset file) \<and>
    (record_boundary (content file) (offset file) \<longrightarrow>
       record_boundary (content file') (offset file'))"
proof (cases "err = None")
  case True
  with ReadRawRecord_outcome [OF assms] record_boundary_advance [of "file"] show ?thesis
    by auto
next
  case False
  with ReadRawRecord_outcome [OF assms] show ?thesis
    by auto
qed

theorem ReadRawRecord_record_boundary_witness:
  "ReadRawRecord \<lparr>content = [0, 0, 0, 3, 0, 0, 0, 2, 9, 8, 7], offset = 0\<rparr> =
     (\<lparr>content = [0, 0, 0, 3, 0, 0, 0, 2, 9, 8, 7], offset = 10\<rparr>,
      Some \<lparr>raw_Type = 3, raw_Data = [9, 8]\<rparr>, None) \<and>
   record_boundary [0, 0, 0, 3, 0, 0, 0, 2, 9, 8, 7] 10"
proof -
  let ?file = "\<lparr>content = [0, 0, 0, 3, 0, 0, 0, 2, 9, 8, 7], offset = 0\<rparr>"
  have run: "ReadRawRecord ?file =
     (\<lparr>content = [0, 0, 0, 3, 0, 0, 0, 2, 9, 8, 7], offset = 10\<rparr>,
      Some \<lparr>raw_Type = 3, raw_Data = [9, 8]\<rparr>, None)"
    by (simp add: ReadRawRecord_eq unread_def Uint32_bytes maxRW_def)
  have start: "record_boundary (content ?file) (offset ?file)"
    by (simp add: record_boundary_start)
  from ReadRawRecord_record_boundary [OF run] start run show ?thesis
    by simp
qed

section \<open>The dispatcher\<close>

text \<open>
  Claim C3. For every stream whose next record is a whole header followed by the whole
  body it declares, with a type tag that is none of 2, 7, 72, 104, 105 and 110,
  \<^verbatim>\<open>ReadRecord\<close> returns the unknown outcome, a nil container with a nil error. The
  comment of \<^verbatim>\<open>ReadRawRecord\<close> reserves \<^verbatim>\<open>io.ErrUnexpectedEOF\<close> for a record that could
  not be read whole, to be read again once more data has been written, and the header is
  read with \<^verbatim>\<open>io.ReadFull\<close>, which reads on after a short count. The body is read with
  one \<^verbatim>\<open>file.Read\<close>: on a file that holds a whole record of type 3 with a body of
  \<open>2 ^ 30 + 1\<close> bytes, one byte more than a single read returns, the count is short, and
  \<^verbatim>\<open>ReadRecord\<close> returns \<^verbatim>\<open>io.ErrUnexpectedEOF\<close> with the offset put back, on every call.
\<close>

theorem ReadRecord_whole_record_over_read_limit:
  "ReadRecord \<lparr>content = [0, 0, 0, 3, 64, 0, 0, 1] @ replicate 1073741825 0, offset = 0\<rparr> =
     (\<lparr>content = [0, 0, 0, 3, 64, 0, 0, 1] @ replicate 1073741825 0, offset = 0\<rparr>,
      None, Some ErrUnexpectedEOF)"
  by (simp add: ReadRecord_def ReadRawRecord_eq unread_def Uint32_bytes maxRW_def)

text \<open>
  Claim C8, as stated: every call of \<^verbatim>\<open>ReadRawRecord\<close> and of \<^verbatim>\<open>ReadRecord\<close> either
  returns a framed or decoded record with the stream past it, or leaves the offset as it
  was on entry. This fails for \<^verbatim>\<open>ReadRecord\<close>: on a packet record with an empty body
  the decoder fails, no record is returned, and the offset stays behind the record that
  was framed.
\<close>

theorem ReadRecord_decoding_error_counterexample:
  "ReadRecord \<lparr>content = [0, 0, 0, 2, 0, 0, 0, 0], offset = 0\<rparr> =
     (\<lparr>content = [0, 0, 0, 2, 0, 0, 0, 0], offset = 8\<rparr>, None, Some DecodingError) \<and>
   offset (fst (ReadRecord \<lparr>content = [0, 0, 0, 2, 0, 0, 0, 0], offset = 0\<rparr>))
     \<noteq> offset \<lparr>content = [0, 0, 0, 2, 0, 0, 0, 0], offset = 0\<rparr>"
  by (simp add: ReadRecord_def ReadRawRecord_eq unread_def Uint32_bytes decode_by_type_def
      IsEventType_iff record_type_defs DecodePacketRecord_def DecodePacketRecord_fields_def
      read_uint32_eq)

text \<open>
  Claim C8, amended. Every call of \<^verbatim>\<open>ReadRawRecord\<close> either returns a record with the
  offset advanced by 8 plus the length of its data, or returns no record, one of
  \<^verbatim>\<open>io.EOF\<close> and \<^verbatim>\<open>io.ErrUnexpectedEOF\<close>, and the offset as on entry. Every call of
  \<^verbatim>\<open>ReadRecord\<close> that returns \<^verbatim>\<open>io.EOF\<close> or \<^verbatim>\<open>io.ErrUnexpectedEOF\<close> returns no
  container and leaves the offset as on entry; every other call returns a nil error or
  \<^verbatim>\<open>DecodingError\<close> (then with no container), a whole record lay at the offset, and the
  offset has advanced past exactly that record. No call changes the bytes of the stream.
\<close>

theorem read_all_or_nothing:
  "(ReadRawRecord file = (file1, raw, err1) \<longrightarrow>
      content file1 = content file \<and>
      (if err1 = None
       then \<exists>record. raw = Some record \<and>
              offset file1 = offset file + 8 + length (raw_Data record)
       else raw = None \<and> offset file1 = offset file \<and>
            (err1 = Some EOF \<or> err1 = Some ErrUnexpectedEOF))) \<and>
   (ReadRecord file = (file2, container, err2) \<longrightarrow>
      content file2 = content file \<and>
      (if err2 = Some EOF \<or> err2 = Some ErrUnexpectedEOF
       then container = None \<and> offset file2 = offset file
       else (err2 = None \<or> err2 = Some DecodingError \<and> container = None) \<and>
            8 + unat (Uint32 (take 4 (drop 4 (unread file)))) \<le> length (unread file) \<and>
            offset file2 = offset file + 8 + unat (Uint32 (take 4 (drop 4 (unread file))))))"
proof (intro conjI impI)
  assume raw: "ReadRawRecord file = (file1, raw, err1)"
  from ReadRawRecord_outcome [OF raw] show "content file1 = content file"
    by simp
  from ReadRawRecord_outcome [OF raw]
  show "if err1 = None
       then \<exists>record. raw = Some record \<and>
              offset file1 = offset file + 8 + length (raw_Data record)
       else raw = None \<and> offset file1 = offset file \<and>
            (err1 = Some EOF \<or> err1 = Some ErrUnexpectedEOF)"
    by (auto split: if_splits)
next
  assume rd: "ReadRecord file = (file2, container, err2)"
  obtain f r e where raw: "ReadRawRecord file = (f, r, e)"
    by (cases "ReadRawRecord file") auto
  note out = ReadRawRecord_outcome [OF raw]
  show "content file2 = content file"
    using rd raw out
    by (auto simp: ReadRecord_def split: option.splits prod.splits if_splits)
  show "if err2 = Some EOF \<or> err2 = Some ErrUnexpectedEOF
       then container = None \<and> offset file2 = offset file
       else (err2 = None \<or> err2 = Some DecodingError \<and> container = None) \<and>
            8 + unat (Uint32 (take 4 (drop 4 (unread file)))) \<le> length (unread file) \<and>
            offset file2 = offset file + 8 + unat (Uint32 (take 4 (drop 4 (unread file))))"
  proof (cases e)
    case None
    with out rd raw show ?thesis
      by (auto simp: ReadRecord_def split: option.splits prod.splits if_splits
          dest: decode_by_type_error)
  next
    case (Some err)
    with out rd raw show ?thesis
      by (auto simp: ReadRecord_def split: option.splits prod.splits if_splits)
  qed
qed

theorem read_all_or_nothing_witness:
  "ReadRawRecord
     \<lparr>content = [0, 0, 0, 110, 0, 0, 0, 33,
                 0, 0, 0, 4, 0, 0, 0, 25, 0, 0, 0, 1, 0, 0, 0, 2, 0, 15, 66, 64,
                 0, 0, 0, 9, 0, 0, 0, 1, 0, 0, 0, 1, 65, 7], offset = 0\<rparr> =
     (\<lparr>content = [0, 0, 0, 110, 0, 0, 0, 33,
                  0, 0, 0, 4, 0, 0, 0, 25, 0, 0, 0, 1, 0, 0, 0, 2, 0, 15, 66, 64,
                  0, 0, 0, 9, 0, 0, 0, 1, 0, 0, 0, 1, 65, 7], offset = 41\<rparr>,
      Some \<lparr>raw_Type = 110,
             raw_Data = [0, 0, 0, 4, 0, 0, 0, 25, 0, 0, 0, 1, 0, 0, 0, 2, 0, 15, 66, 64,
                         0, 0, 0, 9, 0, 0, 0, 1, 0, 0, 0, 1, 65]\<rparr>, None) \<and>
   ReadRecord
     \<lparr>content = [0, 0, 0, 110, 0, 0, 0, 33,
                 0, 0, 0, 4, 0, 0, 0, 25, 0, 0, 0, 1, 0, 0, 0, 2, 0, 15, 66, 64,
                 0, 0, 0, 9, 0, 0, 0, 1, 0, 0, 0, 1, 65, 7], offset = 0\<rparr> =
     (\<lparr>content = [0, 0, 0, 110, 0, 0, 0, 33,
                  0, 0, 0, 4, 0, 0, 0, 25, 0, 0, 0, 1, 0, 0, 0, 2, 0, 15, 66, 64,
                  0, 0, 0, 9, 0, 0, 0, 1, 0, 0, 0, 1, 65, 7], offset = 41\<rparr>,
      Some \<lparr>rc_Type = 110,
             rc_Record = ExtraDataPtr (Some
               \<lparr>xd_EventType = 4, xd_EventLength = 25, xd_SensorId = 1, xd_EventId = 2,
                xd_EventSecond = 1000000, xd_Type = 9, xd_DataType = 1, xd_DataLength = 1,
                xd_Data = [65]\<rparr>)\<rparr>, None) \<and>
   8 + unat (Uint32 (take 4 (drop 4 (unread
     \<lparr>content = [0, 0, 0, 110, 0, 0, 0, 33,
                 0, 0, 0, 4, 0, 0, 0, 25, 0, 0, 0, 1, 0, 0, 0, 2, 0, 15, 66, 64,
                 0, 0, 0, 9, 0, 0, 0, 1, 0, 0, 0, 1, 65, 7], offset = 0\<rparr>)))) = 41"
proof -
  let ?bytes = "[0, 0, 0, 110, 0, 0, 0, 33,
                 0, 0, 0, 4, 0, 0, 0, 25, 0, 0, 0, 1, 0, 0, 0, 2, 0, 15, 66, 64,
                 0, 0, 0, 9, 0, 0, 0, 1, 0, 0, 0, 1, 65, 7] :: byte list"
  let ?file = "\<lparr>content = ?bytes, offset = 0\<rparr>"
  let ?file' = "\<lparr>content = ?bytes, offset = 41\<rparr>"
  let ?raw = "\<lparr>raw_Type = 110,
             raw_Data = [0, 0, 0, 4, 0, 0, 0, 25, 0, 0, 0, 1, 0, 0, 0, 2, 0, 15, 66, 64,
                         0, 0, 0, 9, 0, 0, 0, 1, 0, 0, 0, 1, 65]\<rparr>"
  let ?container = "\<lparr>rc_Type = 110,
             rc_Record = ExtraDataPtr (Some
               \<lparr>xd_EventType = 4, xd_EventLength = 25, xd_SensorId = 1, xd_EventId = 2,
                xd_EventSecond = 1000000, xd_Type = 9, xd_DataType = 1, xd_DataLength = 1,
                xd_Data = [65]\<rparr>)\<rparr>"
  have raw: "ReadRawRecord ?file = (?file', Some ?raw, None)"
    by (simp add: ReadRawRecord_eq unread_def Uint32_bytes maxRW_def)
  have rd: "ReadRecord ?file = (?file', Some ?container, None)"
    by (simp add: ReadRecord_def raw decode_by_type_def record_type_defs
        DecodeExtraDataRecord_def DecodeExtraDataRecord_fields_ok Uint32_bytes)
  from read_all_or_nothing [of ?file ?file' "Some ?raw" None ?file' "Some ?container" None]
       raw rd
  show ?thesis by (simp add: unread_def Uint32_bytes)
qed

section \<open>The decoders\<close>

text \<open>
  Claim C4. For every body long enough for its tag (52 bytes for tag 7, 58 for 104, 76 for
  72, 82 for 105), \<^verbatim>\<open>DecodeEventRecord\<close> succeeds; the nine fields of the preamble are
  the big-endian values of the first nine groups of four bytes of the body; with tag 7 or
  104 the two addresses have exactly 4 bytes each and are the bytes 36 to 39 and 40 to 43
  of the body, and with tag 72 or 105 they have exactly 16 bytes each and are the bytes 36
  to 51 and 52 to 67. In particular the body of the example for tag 7 (sensor id 1, event
  id 2, event second 1000000, priority 3, addresses 10.0.0.1 and 10.0.0.2, ports 80 and
  443, protocol 6, impact flag, impact and blocked 0; the fields the example leaves open
  are given the values 500000, 2000001, 1, 4 and 33) decodes to an event with exactly
  those fields, and zero for the MPLS label and the VLAN id.
\<close>

theorem DecodeEventRecord_addresses_and_preamble:
  "(eventType = UNIFIED2_IDS_EVENT \<and> 52 \<le> length data \<or>
    eventType = UNIFIED2_IDS_EVENT_V2 \<and> 58 \<le> length data \<or>
    eventType = UNIFIED2_IDS_EVENT_IP6 \<and> 76 \<le> length data \<or>
    eventType = UNIFIED2_IDS_EVENT_IP6_V2 \<and> 82 \<le> length data \<longrightarrow>
    (\<exists>event. DecodeEventRecord eventType data = (Some event, None) \<and>
       ev_SensorId event = Uint32 (take 4 data) \<and>
       ev_EventId event = Uint32 (take 4 (drop 4 data)) \<and>
       ev_EventSecond event = Uint32 (take 4 (drop 8 data)) \<and>
       ev_EventMicrosecond event = Uint32 (take 4 (drop 12 data)) \<and>
       ev_SignatureId event = Uint32 (take 4 (drop 16 data)) \<and>
       ev_GeneratorId event = Uint32 (take 4 (drop 20 data)) \<and>
       ev_SignatureRevision event = Uint32 (take 4 (drop 24 data)) \<and>
       ev_ClassificationId event = Uint32 (take 4 (drop 28 data)) \<and>
       ev_Priority event = Uint32 (take 4 (drop 32 data)) \<and>
       (if eventType = UNIFIED2_IDS_EVENT \<or> eventType = UNIFIED2_IDS_EVENT_V2
        then length (ev_IpSource event) = 4 \<and> length (ev_IpDestination event) = 4 \<and>
             ev_IpSource event = take 4 (drop 36 data) \<and>
             ev_IpDestination event = take 4 (drop 40 data)
        else length (ev_IpSource event) = 16 \<and> length (ev_IpDestination event) = 16 \<and>
             ev_IpSource event = take 16 (drop 36 data) \<and>
             ev_IpDestination event = take 16 (drop 52 data)))) \<and>
   DecodeEventRecord UNIFIED2_IDS_EVENT
     [0, 0, 0, 1,  0, 0, 0, 2,  0, 15, 66, 64,  0, 7, 161, 32,  0, 30, 132, 129,
      0, 0, 0, 1,  0, 0, 0, 4,  0, 0, 0, 33,  0, 0, 0, 3,
      10, 0, 0, 1,  10, 0, 0, 2,  0, 80,  1, 187,  6, 0, 0, 0] =
     (Some \<lparr>ev_SensorId = 1, ev_EventId = 2, ev_EventSecond = 1000000,
             ev_EventMicrosecond = 500000, ev_SignatureId = 2000001,
             ev_GeneratorId = 1, ev_SignatureRevision = 4,
             ev_ClassificationId = 33, ev_Priority = 3,
             ev_IpSource = [10, 0, 0, 1], ev_IpDestination = [10, 0, 0, 2],
             ev_SportItype = 80, ev_DportIcode = 443, ev_Protocol = 6,
             ev_ImpactFlag = 0, ev_Impact = 0, ev_Blocked = 0,
             ev_MplsLabel = 0, ev_VlanId = 0\<rparr>, None)"
    (is "(?long \<longrightarrow> ?fields) \<and> ?example")
proof (intro conjI impI)
  assume ?long
  then consider
      (v4_v1) "eventType = UNIFIED2_IDS_EVENT" "52 \<le> length data"
    | (v4_v2) "eventType = UNIFIED2_IDS_EVENT_V2" "58 \<le> length data"
    | (v6_v1) "eventType = UNIFIED2_IDS_EVENT_IP6" "76 \<le> length data"
    | (v6_v2) "eventType = UNIFIED2_IDS_EVENT_IP6_V2" "82 \<le> length data"
    by blast
  then show ?fields
  proof cases
    case v4_v1
    from DecodeEventRecord_ok [OF fields_v4_v1 [OF v4_v1]] v4_v1 show ?thesis
      by (simp add: event_layout_def)
  next
    case v4_v2
    from DecodeEventRecord_ok [OF fields_v4_v2 [OF v4_v2]] v4_v2 show ?thesis
      by (simp add: event_layout_def)
  next
    case v6_v1
    from DecodeEventRecord_ok [OF fields_v6_v1 [OF v6_v1]] v6_v1 show ?thesis
      by (simp add: event_layout_def record_type_defs)
  next
    case v6_v2
    from DecodeEventRecord_ok [OF fields_v6_v2 [OF v6_v2]] v6_v2 show ?thesis
      by (simp add: event_layout_def record_type_defs)
  qed
next
  let ?body = "[0, 0, 0, 1,  0, 0, 0, 2,  0, 15, 66, 64,  0, 7, 161, 32,  0, 30, 132, 129,
      0, 0, 0, 1,  0, 0, 0, 4,  0, 0, 0, 33,  0, 0, 0, 3,
      10, 0, 0, 1,  10, 0, 0, 2,  0, 80,  1, 187,  6, 0, 0, 0] :: byte list"
  have "52 \<le> length ?body" by simp
  from DecodeEventRecord_ok [OF fields_v4_v1 [OF refl this]] show ?example
    by (simp add: event_layout_def Uint32_bytes Uint16_bytes)
qed

theorem DecodeEventRecord_addresses_and_preamble_witness:
  "\<exists>event. DecodeEventRecord UNIFIED2_IDS_EVENT_IP6_V2 (replicate 82 1) = (Some event, None) \<and>
     length (ev_IpSource event) = 16 \<and> length (ev_IpDestination event) = 16 \<and>
     ev_IpSource event = replicate 16 1 \<and> ev_IpDestination event = replicate 16 1"
proof -
  have long: "UNIFIED2_IDS_EVENT_IP6_V2 = UNIFIED2_IDS_EVENT \<and> 52 \<le> length (replicate 82 (1::byte)) \<or>
    UNIFIED2_IDS_EVENT_IP6_V2 = UNIFIED2_IDS_EVENT_V2 \<and> 58 \<le> length (replicate 82 (1::byte)) \<or>
    UNIFIED2_IDS_EVENT_IP6_V2 = UNIFIED2_IDS_EVENT_IP6 \<and> 76 \<le> length (replicate 82 (1::byte)) \<or>
    UNIFIED2_IDS_EVENT_IP6_V2 = UNIFIED2_IDS_EVENT_IP6_V2 \<and> 82 \<le> length (replicate 82 (1::byte))"
    by simp
  have v6: "\<not> (UNIFIED2_IDS_EVENT_IP6_V2 = UNIFIED2_IDS_EVENT \<or>
                UNIFIED2_IDS_EVENT_IP6_V2 = UNIFIED2_IDS_EVENT_V2)"
    by (simp add: record_type_defs)
  from DecodeEventRecord_addresses_and_preamble
         [of UNIFIED2_IDS_EVENT_IP6_V2 "replicate 82 1", THEN conjunct1, THEN mp, OF long]
  obtain event where
    "DecodeEventRecord UNIFIED2_IDS_EVENT_IP6_V2 (replicate 82 1) = (Some event, None)"
    "length (ev_IpSource event) = 16 \<and> length (ev_IpDestination event) = 16 \<and>
     ev_IpSource event = take 16 (drop 36 (replicate 82 1)) \<and>
     ev_IpDestination event = take 16 (drop 52 (replicate 82 1))"
    using v6 by auto
  then show ?thesis by simp
qed

text \<open>
  Claim C5. For every body that is long enough, \<^verbatim>\<open>DecodeEventRecord\<close> reads the 4-byte
  MPLS label and the 2-byte VLAN id exactly when the tag is 104 or 105: then the two
  fields are the big-endian values of the six bytes right after the field
  \<^verbatim>\<open>Blocked\<close>, and the reader is left six bytes further. For the tags 7 and 72, and for
  any tag that is no event tag, both fields are zero and the reader is left right after
  the byte of \<^verbatim>\<open>Blocked\<close>, where decoding ends.
\<close>

theorem DecodeEventRecord_mpls_vlan:
  "(eventType = UNIFIED2_IDS_EVENT_V2 \<and> 58 \<le> length data \<longrightarrow>
      (\<exists>event. DecodeEventRecord_fields eventType data = Inr (event, drop 58 data) \<and>
         DecodeEventRecord eventType data = (Some event, None) \<and>
         ev_Blocked event = data ! 51 \<and>
         ev_MplsLabel event = Uint32 (take 4 (drop 52 data)) \<and>
         ev_VlanId event = Uint16 (take 2 (drop 56 data)))) \<and>
   (eventType = UNIFIED2_IDS_EVENT_IP6_V2 \<and> 82 \<le> length data \<longrightarrow>
      (\<exists>event. DecodeEventRecord_fields eventType data = Inr (event, drop 82 data) \<and>
         DecodeEventRecord eventType data = (Some event, None) \<and>
         ev_Blocked event = data ! 75 \<and>
         ev_MplsLabel event = Uint32 (take 4 (drop 76 data)) \<and>
         ev_VlanId event = Uint16 (take 2 (drop 80 data)))) \<and>
   (eventType = UNIFIED2_IDS_EVENT \<and> 52 \<le> length data \<longrightarrow>
      (\<exists>event. DecodeEventRecord_fields eventType data = Inr (event, drop 52 data) \<and>
         DecodeEventRecord eventType data = (Some event, None) \<and>
         ev_Blocked event = data ! 51 \<and>
         ev_MplsLabel event = 0 \<and> ev_VlanId event = 0)) \<and>
   (eventType = UNIFIED2_IDS_EVENT_IP6 \<and> 76 \<le> length data \<longrightarrow>
      (\<exists>event. DecodeEventRecord_fields eventType data = Inr (event, drop 76 data) \<and>
         DecodeEventRecord eventType data = (Some event, None) \<and>
         ev_Blocked event = data ! 75 \<and>
         ev_MplsLabel event = 0 \<and> ev_VlanId event = 0)) \<and>
   (\<not> IsEventType eventType \<and> 44 \<le> length data \<longrightarrow>
      (\<exists>event. DecodeEventRecord_fields eventType data = Inr (event, drop 44 data) \<and>
         DecodeEventRecord eventType data = (Some event, None) \<and>
         ev_Blocked event = data ! 43 \<and>
         ev_MplsLabel event = 0 \<and> ev_VlanId event = 0))"
proof (intro conjI impI; elim conjE)
  assume "eventType = UNIFIED2_IDS_EVENT_V2" "58 \<le> length data"
  from fields_v4_v2 [OF this] DecodeEventRecord_ok [OF fields_v4_v2 [OF this]]
  show "\<exists>event. DecodeEventRecord_fields eventType data = Inr (event, drop 58 data) \<and>
         DecodeEventRecord eventType data = (Some event, None) \<and>
         ev_Blocked event = data ! 51 \<and>
         ev_MplsLabel event = Uint32 (take 4 (drop 52 data)) \<and>
         ev_VlanId event = Uint16 (take 2 (drop 56 data))"
    by (simp add: event_layout_def)
next
  assume "eventType = UNIFIED2_IDS_EVENT_IP6_V2" "82 \<le> length data"
  from fields_v6_v2 [OF this] DecodeEventRecord_ok [OF fields_v6_v2 [OF this]]
  show "\<exists>event. DecodeEventRecord_fields eventType data = Inr (event, drop 82 data) \<and>
         DecodeEventRecord eventType data = (Some event, None) \<and>
         ev_Blocked event = data ! 75 \<and>
         ev_MplsLabel event = Uint32 (take 4 (drop 76 data)) \<and>
         ev_VlanId event = Uint16 (take 2 (drop 80 data))"
    by (simp add: event_layout_def)
next
  assume "eventType = UNIFIED2_IDS_EVENT" "52 \<le> length data"
  from fields_v4_v1 [OF this] DecodeEventRecord_ok [OF fields_v4_v1 [OF this]]
  show "\<exists>event. DecodeEventRecord_fields eventType data = Inr (event, drop 52 data) \<and>
         DecodeEventRecord eventType data = (Some event, None) \<and>
         ev_Blocked event = data ! 51 \<and>
         ev_MplsLabel event = 0 \<and> ev_VlanId event = 0"
    by (simp add: event_layout_def)
next
  assume "eventType = UNIFIED2_IDS_EVENT_IP6" "76 \<le> length data"
  from fields_v6_v1 [OF this] DecodeEventRecord_ok [OF fields_v6_v1 [OF this]]
  show "\<exists>event. DecodeEventRecord_fields eventType data = Inr (event, drop 76 data) \<and>
         DecodeEventRecord eventType data = (Some event, None) \<and>
         ev_Blocked event = data ! 75 \<and>
         ev_MplsLabel event = 0 \<and> ev_VlanId event = 0"
    by (simp add: event_layout_def)
next
  assume "\<not> IsEventType eventType" "44 \<le> length data"
  from fields_other [OF this] DecodeEventRecord_ok [OF fields_other [OF this]]
  show "\<exists>event. DecodeEventRecord_fields eventType data = Inr (event, drop 44 data) \<and>
         DecodeEventRecord eventType data = (Some event, None) \<and>
         ev_Blocked event = data ! 43 \<and>
         ev_MplsLabel event = 0 \<and> ev_VlanId event = 0"
    by (simp add: event_layout_def)
qed

theorem DecodeEventRecord_mpls_vlan_witness:
  "\<exists>event. DecodeEventRecord_fields UNIFIED2_IDS_EVENT_V2
              (replicate 52 0 @ [0, 0, 1, 2, 3, 4, 9]) = Inr (event, [9]) \<and>
     ev_MplsLabel event = 258 \<and> ev_VlanId event = 772"
proof -
  have long: "UNIFIED2_IDS_EVENT_V2 = UNIFIED2_IDS_EVENT_V2 \<and>
              58 \<le> length (replicate 52 (0::byte) @ [0, 0, 1, 2, 3, 4, 9])"
    by simp
  from DecodeEventRecord_mpls_vlan
         [of UNIFIED2_IDS_EVENT_V2 "replicate 52 0 @ [0, 0, 1, 2, 3, 4, 9]",
          THEN conjunct1, THEN mp, OF long]
  show ?thesis
    by (simp add: Uint32_bytes Uint16_bytes) blast
qed

text \<open>
  Claim C6. For every body of at least 28 bytes, \<^verbatim>\<open>DecodePacketRecord\<close> succeeds and
  the data of the packet is the body from byte 28 on, so of the length of the body minus
  28; for every body of at least 32 bytes, \<^verbatim>\<open>DecodeExtraDataRecord\<close> succeeds and the
  data is the body from byte 32 on. The length the record declares is whatever the four
  bytes of its field hold, and has no part in the slicing.
\<close>

theorem Decode_tail:
  "(28 \<le> length data \<longrightarrow>
      (\<exists>packet. DecodePacketRecord data = (Some packet, None) \<and>
         pkt_Length packet = Uint32 (take 4 (drop 24 data)) \<and>
         pkt_Data packet = drop 28 data \<and>
         length (pkt_Data packet) = length data - 28)) \<and>
   (32 \<le> length data \<longrightarrow>
      (\<exists>extra. DecodeExtraDataRecord data = (Some extra, None) \<and>
         xd_DataLength extra = Uint32 (take 4 (drop 28 data)) \<and>
         xd_Data extra = drop 32 data \<and>
         length (xd_Data extra) = length data - 32))"
  by (simp add: DecodePacketRecord_def DecodePacketRecord_fields_ok
      DecodeExtraDataRecord_def DecodeExtraDataRecord_fields_ok)

theorem Decode_tail_witness:
  "(\<exists>packet. DecodePacketRecord
                (replicate 24 0 @ [255, 255, 255, 255, 170, 187, 204, 1, 2, 3, 4]) =
                (Some packet, None) \<and>
      pkt_Length packet = 4294967295 \<and>
      pkt_Data packet = [170, 187, 204, 1, 2, 3, 4]) \<and>
   (\<exists>extra. DecodeExtraDataRecord
               (replicate 24 0 @ [255, 255, 255, 255, 170, 187, 204, 1, 2, 3, 4]) =
               (Some extra, None) \<and>
      xd_Data extra = [2, 3, 4] \<and> length (xd_Data extra) = 3)"
proof -
  let ?data = "replicate 24 0 @ [255, 255, 255, 255, 170, 187, 204, 1, 2, 3, 4] :: byte list"
  have p: "28 \<le> length ?data" and x: "32 \<le> length ?data"
    by simp_all
  note tail = Decode_tail [of ?data]
  from tail [THEN conjunct1, THEN mp, OF p]
  have packet: "\<exists>packet. DecodePacketRecord ?data = (Some packet, None) \<and>
      pkt_Length packet = 4294967295 \<and> pkt_Data packet = [170, 187, 204, 1, 2, 3, 4]"
    by (simp add: Uint32_bytes) blast
  from tail [THEN conjunct2, THEN mp, OF x]
  have extra: "\<exists>extra. DecodeExtraDataRecord ?data = (Some extra, None) \<and>
      xd_Data extra = [2, 3, 4] \<and> length (xd_Data extra) = 3"
    by simp blast
  from packet extra show ?thesis ..
qed

text \<open>
  Claim C7. For every body too short for its tag (fewer than 52 bytes for tag 7, 58 for
  104, 76 for 72, 82 for 105), \<^verbatim>\<open>DecodeEventRecord\<close> returns a nil record together with
  \<^verbatim>\<open>DecodingError\<close>; so does \<^verbatim>\<open>DecodePacketRecord\<close> for a body of fewer than 28 bytes
  and \<^verbatim>\<open>DecodeExtraDataRecord\<close> for a body of fewer than 32 bytes. No record filled in
  part is ever returned.
\<close>

theorem Decode_short_body:
  "(eventType = UNIFIED2_IDS_EVENT \<and> length data < 52 \<or>
    eventType = UNIFIED2_IDS_EVENT_V2 \<and> length data < 58 \<or>
    eventType = UNIFIED2_IDS_EVENT_IP6 \<and> length data < 76 \<or>
    eventType = UNIFIED2_IDS_EVENT_IP6_V2 \<and> length data < 82 \<longrightarrow>
      DecodeEventRecord eventType data = (None, Some DecodingError)) \<and>
   (length data < 28 \<longrightarrow> DecodePacketRecord data = (None, Some DecodingError)) \<and>
   (length data < 32 \<longrightarrow> DecodeExtraDataRecord data = (None, Some DecodingError))"
proof (intro conjI impI)
  assume "eventType = UNIFIED2_IDS_EVENT \<and> length data < 52 \<or>
    eventType = UNIFIED2_IDS_EVENT_V2 \<and> length data < 58 \<or>
    eventType = UNIFIED2_IDS_EVENT_IP6 \<and> length data < 76 \<or>
    eventType = UNIFIED2_IDS_EVENT_IP6_V2 \<and> length data < 82"
  then consider
      (v4_v1) "eventType = UNIFIED2_IDS_EVENT" "length data < 52"
    | (v4_v2) "eventType = UNIFIED2_IDS_EVENT_V2" "length data < 58"
    | (v6_v1) "eventType = UNIFIED2_IDS_EVENT_IP6" "length data < 76"
    | (v6_v2) "eventType = UNIFIED2_IDS_EVENT_IP6_V2" "length data < 82"
    by blast
  then have "\<exists>err. DecodeEventRecord_fields eventType data = Inl err"
  proof cases
    case v4_v1
    then show ?thesis by (rule fields_short_v4_v1)
  next
    case v4_v2
    then show ?thesis by (rule fields_short_v4_v2)
  next
    case v6_v1
    then show ?thesis by (rule fields_short_v6_v1)
  next
    case v6_v2
    then show ?thesis by (rule fields_short_v6_v2)
  qed
  then show "DecodeEventRecord eventType data = (None, Some DecodingError)"
    by (rule DecodeEventRecord_failed)
next
  assume "length data < 28"
  then have "\<exists>err. DecodePacketRecord_fields data = Inl err"
    by (rule DecodePacketRecord_fields_short)
  then show "DecodePacketRecord data = (None, Some DecodingError)"
    by (rule DecodePacketRecord_failed)
next
  assume "length data < 32"
  then have "\<exists>err. DecodeExtraDataRecord_fields data = Inl err"
    by (rule DecodeExtraDataRecord_fields_short)
  then show "DecodeExtraDataRecord data = (None, Some DecodingError)"
    by (rule DecodeExtraDataRecord_failed)
qed

theorem Decode_short_body_witness:
  "DecodeEventRecord UNIFIED2_IDS_EVENT_V2 (replicate 27 7) = (None, Some DecodingError) \<and>
   DecodePacketRecord (replicate 27 7) = (None, Some DecodingError) \<and>
   DecodeExtraDataRecord (replicate 27 7) = (None, Some DecodingError)"
  using Decode_short_body [of UNIFIED2_IDS_EVENT_V2 "replicate 27 7"]
  by simp

text \<open>
  Claim C10. For every tag that is none of the four event tags and every body of at least
  44 bytes, \<^verbatim>\<open>DecodeEventRecord\<close> called directly does not fail: it reads no address,
  leaves both addresses nil, takes the two 16-bit and four 8-bit fields from the bytes 36
  to 43, right after the preamble, and stops there. That the tag is an event tag is never
  checked.
\<close>

theorem DecodeEventRecord_other_tag:
  assumes "\<not> IsEventType eventType" and "44 \<le> length data"
  shows "\<exists>event. DecodeEventRecord eventType data = (Some event, None) \<and>
     DecodeEventRecord_fields eventType data = Inr (event, drop 44 data) \<and>
     ev_IpSource event = [] \<and> ev_IpDestination event = [] \<and>
     ev_SportItype event = Uint16 (take 2 (drop 36 data)) \<and>
     ev_DportIcode event = Uint16 (take 2 (drop 38 data)) \<and>
     ev_Protocol event = data ! 40 \<and> ev_ImpactFlag event = data ! 41 \<and>
     ev_Impact event = data ! 42 \<and> ev_Blocked event = data ! 43"
  using fields_other [OF assms] DecodeEventRecord_ok [OF fields_other [OF assms]]
  by (simp add: event_layout_def)

theorem DecodeEventRecord_other_tag_witness:
  "\<exists>event. DecodeEventRecord UNIFIED2_PACKET (replicate 36 0 @ [0, 80, 1, 187, 6, 1, 2, 3]) =
              (Some event, None) \<and>
     ev_IpSource event = [] \<and> ev_IpDestination event = [] \<and>
     ev_SportItype event = 80 \<and> ev_DportIcode event = 443 \<and>
     ev_Protocol event = 6 \<and> ev_ImpactFlag event = 1 \<and>
     ev_Impact event = 2 \<and> ev_Blocked event = 3"
proof -
  have tag: "\<not> IsEventType UNIFIED2_PACKET"
    by (simp add: IsEventType_iff record_type_defs)
  have len: "44 \<le> length (replicate 36 (0::byte) @ [0, 80, 1, 187, 6, 1, 2, 3])"
    by simp
  from DecodeEventRecord_other_tag [OF tag len] show ?thesis
    by (simp add: Uint16_bytes nth_append) blast
qed

end
